theory Spec2Isabelle
  imports Complex_Main "HOL-Library.AList" "HOL-Library.Multiset"
begin

section \<open>Data frames\<close>

text \<open>
  A pandas cell is a number, the missing value (\<open>None\<close> in an object column, \<open>NaN\<close> in a
  float column; pandas arithmetic, \<open>astype("float64")\<close> and \<open>isna\<close> treat both alike), or
  text. Numbers are exact rationals: the binary64 arithmetic of the source is idealised,
  so rounding error, overflow and infinities are outside this development.

  A data frame is its ordered list of named columns together with the length of its
  index. The index itself is the default \<open>RangeIndex\<close> \<open>0..n-1\<close>, which is what
  \<open>pd.DataFrame(rows)\<close> and \<open>reset_index(drop=True)\<close> produce. Every column of a frame
  that pandas can build has \<open>index_len\<close> cells.
\<close>

datatype cell = NaN | Num rat | Str string

datatype error = KeyError string | ValueError | TypeError

record frame =
  index_len :: nat
  columns :: "(string \<times> cell list) list"

definition wf_frame :: "frame \<Rightarrow> bool" where
  "wf_frame df = list_all (\<lambda>(name, col). length col = index_len df) (columns df)"

text \<open>\<open>pd.DataFrame()\<close>: no index, no columns.\<close>

definition DataFrame_empty :: frame where
  "DataFrame_empty = \<lparr>index_len = 0, columns = []\<rparr>"

text \<open>\<open>df.empty\<close>: true when any axis has length 0.\<close>

definition empty :: "frame \<Rightarrow> bool" where
  "empty df = (index_len df = 0 \<or> columns df = [])"

text \<open>\<open>name in df\<close>, \<open>df[name]\<close> (a missing column raises \<open>KeyError\<close>).\<close>

definition has_column :: "string \<Rightarrow> frame \<Rightarrow> bool" where
  "has_column name df = (map_of (columns df) name \<noteq> None)"

definition getitem :: "frame \<Rightarrow> string \<Rightarrow> error + cell list" where
  "getitem df name =
     (case map_of (columns df) name of None \<Rightarrow> Inl (KeyError name) | Some col \<Rightarrow> Inr col)"

text \<open>
  \<open>df[name] = values\<close>: an existing column is replaced where it stands, a new one is
  appended. Assigning a list whose length differs from the index raises \<open>ValueError\<close>
  (\<open>setitem_list\<close>); a series on the frame's own index, an array computed from its rows
  and a broadcast scalar always fit (\<open>setitem\<close>).
\<close>

definition setitem :: "string \<Rightarrow> cell list \<Rightarrow> frame \<Rightarrow> frame" where
  "setitem name col df = df\<lparr>columns := AList.update name col (columns df)\<rparr>"

definition setitem_list :: "string \<Rightarrow> cell list \<Rightarrow> frame \<Rightarrow> error + frame" where
  "setitem_list name col df =
     (if length col \<noteq> index_len df then Inl ValueError else Inr (setitem name col df))"

text \<open>
  \<open>series.astype("float64")\<close>: a float series is a list of optional rationals, \<open>None\<close>
  being \<open>NaN\<close>. Text in a scored column is rejected with \<open>ValueError\<close>; pandas would
  first try to parse it as a float literal, a case that the extractor, which only stores
  integers or \<open>None\<close> in the scored columns, never produces.
\<close>

fun astype_float64 :: "cell list \<Rightarrow> error + rat option list" where
  "astype_float64 [] = Inr []"
| "astype_float64 (c # cs) =
     (case (case c of NaN \<Rightarrow> Inr None | Num x \<Rightarrow> Inr (Some x) | Str s \<Rightarrow> Inl ValueError) of
        Inl e \<Rightarrow> Inl e
      | Inr v \<Rightarrow> (case astype_float64 cs of Inl e \<Rightarrow> Inl e | Inr vs \<Rightarrow> Inr (v # vs)))"

definition to_cell :: "rat option \<Rightarrow> cell" where
  "to_cell v = (case v of None \<Rightarrow> NaN | Some x \<Rightarrow> Num x)"

text \<open>\<open>scalar - series\<close>: missing cells stay missing, text raises \<open>TypeError\<close>.\<close>

fun rsub :: "rat \<Rightarrow> cell list \<Rightarrow> error + cell list" where
  "rsub a [] = Inr []"
| "rsub a (c # cs) =
     (case (case c of NaN \<Rightarrow> Inr NaN | Num x \<Rightarrow> Inr (Num (a - x)) | Str s \<Rightarrow> Inl TypeError) of
        Inl e \<Rightarrow> Inl e
      | Inr v \<Rightarrow> (case rsub a cs of Inl e \<Rightarrow> Inl e | Inr vs \<Rightarrow> Inr (v # vs)))"

section \<open>The value model (value_model.py)\<close>

text \<open>\<open>vals.min()\<close> and \<open>vals.max()\<close> of a non-empty list of present values.\<close>

fun series_min :: "rat list \<Rightarrow> rat" where
  "series_min [] = 0"
| "series_min (x # xs) = fold min xs x"

fun series_max :: "rat list \<Rightarrow> rat" where
  "series_max [] = 0"
| "series_max (x # xs) = fold max xs x"

text \<open>\<open>x[mask]\<close> with \<open>mask = x.notna()\<close>: the present values, in order.\<close>

definition present :: "rat option list \<Rightarrow> rat list" where
  "present x = List.map_filter (\<lambda>v. v) x"

text \<open>
  The body of \<open>norm_col\<close> once \<open>x = df[col].astype("float64")\<close> is known. Arithmetic on
  a series is cell by cell and \<open>NaN\<close> stays \<open>NaN\<close>.
\<close>

definition norm_series :: "bool \<Rightarrow> rat option list \<Rightarrow> rat option list" where
  "norm_series higher_is_better x =
     (let vals = present x in
      if vals = [] then map (\<lambda>v. None) x
      else
        let vmin = series_min vals; vmax = series_max vals in
        if vmax = vmin then map (\<lambda>v. if v \<noteq> None then Some (1 / 2) else None) x
        else if higher_is_better then map (map_option (\<lambda>a. (a - vmin) / (vmax - vmin))) x
        else map (map_option (\<lambda>a. (vmax - a) / (vmax - vmin))) x)"

definition float_column :: "frame \<Rightarrow> string \<Rightarrow> error + rat option list" where
  "float_column df col =
     (case getitem df col of Inl e \<Rightarrow> Inl e | Inr c \<Rightarrow> astype_float64 c)"

definition norm_col :: "frame \<Rightarrow> string \<Rightarrow> bool \<Rightarrow> error + rat option list" where
  "norm_col df col higher_is_better =
     (case float_column df col of
        Inl e \<Rightarrow> Inl e
      | Inr x \<Rightarrow> Inr (norm_series higher_is_better x))"

definition current_year :: rat where
  "current_year = 2025"

text \<open>\<open>safe_val\<close>: a missing normalised value counts as the neutral 0.5.\<close>

definition safe_val :: "rat option \<Rightarrow> rat" where
  "safe_val x = (case x of None \<Rightarrow> 1 / 2 | Some v \<Rightarrow> v)"

definition score :: "rat option \<Rightarrow> rat option \<Rightarrow> rat option \<Rightarrow> rat option \<Rightarrow> rat" where
  "score price_norm depr_norm mileage_norm age_norm =
     (let price_n = safe_val price_norm;
          depr_n = safe_val depr_norm;
          mile_n = safe_val mileage_norm;
          age_n = safe_val age_norm
      in 35 / 100 * price_n + 30 / 100 * depr_n + 20 / 100 * mile_n + 15 / 100 * age_n)"

text \<open>
  \<open>np.round(a, 1)\<close>: scale by ten, round to the nearest integer with halves going to the
  even neighbour, scale back.
\<close>

definition rint :: "rat \<Rightarrow> int" where
  "rint x =
     (let f = \<lfloor>x\<rfloor>; d = x - of_int f in
      if d < 1 / 2 then f else if 1 / 2 < d then f + 1 else if even f then f else f + 1)"

definition np_round1 :: "rat \<Rightarrow> rat" where
  "np_round1 x = of_int (rint (x * 10)) / 10"

text \<open>
  \<open>df.sort_values(by="value_score", ascending=False).reset_index(drop=True)\<close>. pandas
  computes an indexer (the row numbers in their new order) from the key column and takes
  every column along it. The source passes no \<open>kind\<close>, so the indexer is the one of the
  library's default algorithm; it is a parameter of the model, of which the library
  promises what \<open>sorts_descending\<close> says: a permutation of the row numbers that puts the
  keys in descending order.
\<close>

type_synonym indexer = "rat list \<Rightarrow> nat list"

definition sorts_descending :: "indexer \<Rightarrow> bool" where
  "sorts_descending ix =
     (\<forall>keys. mset (ix keys) = mset [0..<length keys] \<and>
             sorted_wrt (\<lambda>a b. b \<le> a) (map (\<lambda>i. keys ! i) (ix keys)))"

definition take_rows :: "nat list \<Rightarrow> frame \<Rightarrow> frame" where
  "take_rows perm df =
     \<lparr>index_len = length perm,
      columns = map (\<lambda>(name, col). (name, map (\<lambda>i. col ! i) perm)) (columns df)\<rparr>"

definition num_column :: "frame \<Rightarrow> string \<Rightarrow> rat list" where
  "num_column df name =
     (case map_of (columns df) name of
        None \<Rightarrow> []
      | Some col \<Rightarrow> map (\<lambda>c. case c of Num x \<Rightarrow> x | _ \<Rightarrow> 0) col)"

definition sort_values_desc :: "indexer \<Rightarrow> string \<Rightarrow> frame \<Rightarrow> frame" where
  "sort_values_desc ix by df = take_rows (ix (num_column df by)) df"

text \<open>
  An indexer that meets the library's promise, the one a stable \<open>kind\<close> gives: among equal
  keys the earlier row comes first. It stands for the library in the worked examples
  below, none of which depends on the order of equal keys.
\<close>

definition indexer_stable :: indexer where
  "indexer_stable keys = sort_key (\<lambda>i. - (keys ! i)) [0..<length keys]"

text \<open>
  The scoring loop over the rows, reading the four normalised values of each row (the
  series just stored in the frame under four different names).
\<close>

definition value_scores ::
  "rat option list \<Rightarrow> rat option list \<Rightarrow> rat option list \<Rightarrow> rat option list \<Rightarrow> nat \<Rightarrow> rat list"
where
  "value_scores price_norm depr_norm mileage_norm age_norm n =
     map (\<lambda>i. np_round1 (score (price_norm ! i) (depr_norm ! i) (mileage_norm ! i) (age_norm ! i)
                          * 100)) [0..<n]"

definition compute_value_scores :: "indexer \<Rightarrow> frame \<Rightarrow> error + frame" where
  "compute_value_scores ix df =
     (if empty df then
        (case setitem_list ''value_score'' [] df of
           Inl e \<Rightarrow> Inl e
         | Inr df1 \<Rightarrow> setitem_list ''value_rank'' [] df1)
      else
        (case (if has_column ''year'' df
               then (case getitem df ''year'' of Inl e \<Rightarrow> Inl e | Inr y \<Rightarrow> rsub current_year y)
               else Inr (replicate (index_len df) NaN)) of
           Inl e \<Rightarrow> Inl e
         | Inr car_age \<Rightarrow>
        let df1 = setitem ''car_age'' car_age df in
        (case norm_col df1 ''price_sgd'' False of Inl e \<Rightarrow> Inl e | Inr price_norm \<Rightarrow>
        let df2 = setitem ''price_norm'' (map to_cell price_norm) df1 in
        (case norm_col df2 ''depreciation_per_year'' False of Inl e \<Rightarrow> Inl e | Inr depr_norm \<Rightarrow>
        let df3 = setitem ''depr_norm'' (map to_cell depr_norm) df2 in
        (case norm_col df3 ''mileage_km'' False of Inl e \<Rightarrow> Inl e | Inr mileage_norm \<Rightarrow>
        let df4 = setitem ''mileage_norm'' (map to_cell mileage_norm) df3 in
        (case norm_col df4 ''car_age'' False of Inl e \<Rightarrow> Inl e | Inr age_norm \<Rightarrow>
        let df5 = setitem ''age_norm'' (map to_cell age_norm) df4;
            scores = value_scores price_norm depr_norm mileage_norm age_norm (index_len df5);
            df6 = setitem ''value_score'' (map Num scores) df5;
            df7 = sort_values_desc ix ''value_score'' df6
        in Inr (setitem ''value_rank'' (map (\<lambda>i. Num (of_nat (i + 1))) [0..<index_len df7])
                  df7)))))))"

section \<open>The successful path of the scorer, in closed form\<close>

text \<open>
  A batch is scorable when it has at least one row and one column, every column is as
  long as the index, the three scored columns that the source reads unguarded are there,
  and no scored column holds text. On such a batch no branch of the scorer raises, and
  its result is \<open>ranked ix (scored df)\<close>; \<open>compute_value_scores_scorable\<close> proves it.
\<close>

definition cell_float :: "cell \<Rightarrow> rat option" where
  "cell_float c = (case c of NaN \<Rightarrow> None | Num x \<Rightarrow> Some x | Str s \<Rightarrow> None)"

definition no_text :: "cell list \<Rightarrow> bool" where
  "no_text col = list_all (\<lambda>c. case c of Str s \<Rightarrow> False | _ \<Rightarrow> True) col"

definition numeric :: "frame \<Rightarrow> string \<Rightarrow> bool" where
  "numeric df name = (case map_of (columns df) name of None \<Rightarrow> False | Some col \<Rightarrow> no_text col)"

definition scorable :: "frame \<Rightarrow> bool" where
  "scorable df =
     (wf_frame df \<and> \<not> empty df \<and> numeric df ''price_sgd'' \<and>
      numeric df ''depreciation_per_year'' \<and> numeric df ''mileage_km'' \<and>
      (has_column ''year'' df \<longrightarrow> numeric df ''year''))"

definition raw :: "frame \<Rightarrow> string \<Rightarrow> rat option list" where
  "raw df name =
     (case map_of (columns df) name of
        None \<Rightarrow> replicate (index_len df) None
      | Some col \<Rightarrow> map cell_float col)"

definition car_age :: "frame \<Rightarrow> rat option list" where
  "car_age df = map (map_option (\<lambda>y. current_year - y)) (raw df ''year'')"

definition scores_of :: "frame \<Rightarrow> rat list" where
  "scores_of df =
     value_scores (norm_series False (raw df ''price_sgd''))
       (norm_series False (raw df ''depreciation_per_year''))
       (norm_series False (raw df ''mileage_km''))
       (norm_series False (car_age df)) (index_len df)"

definition scored :: "frame \<Rightarrow> frame" where
  "scored df =
     setitem ''value_score'' (map Num (scores_of df))
       (setitem ''age_norm'' (map to_cell (norm_series False (car_age df)))
         (setitem ''mileage_norm'' (map to_cell (norm_series False (raw df ''mileage_km'')))
           (setitem ''depr_norm''
              (map to_cell (norm_series False (raw df ''depreciation_per_year'')))
             (setitem ''price_norm'' (map to_cell (norm_series False (raw df ''price_sgd'')))
               (setitem ''car_age'' (map to_cell (car_age df)) df)))))"

definition ranked :: "indexer \<Rightarrow> frame \<Rightarrow> frame" where
  "ranked ix df =
     (let df7 = sort_values_desc ix ''value_score'' df
      in setitem ''value_rank'' (map (\<lambda>i. Num (of_nat (i + 1))) [0..<index_len df7]) df7)"

text \<open>The cell of a column at a row; a column that is not there has no cell anywhere.\<close>

definition cell_at :: "frame \<Rightarrow> string \<Rightarrow> nat \<Rightarrow> cell option" where
  "cell_at df name i =
     (case map_of (columns df) name of
        None \<Rightarrow> None
      | Some col \<Rightarrow> if i < length col then Some (col ! i) else None)"

text \<open>
  Vocabulary of the claims: an attribute is absent at a row when the column is missing or
  the cell is missing; the columns that scoring derives; and each scored attribute with
  its normalised column.
\<close>

definition absent :: "frame \<Rightarrow> string \<Rightarrow> nat \<Rightarrow> bool" where
  "absent df name i = (case cell_at df name i of None \<Rightarrow> True | Some c \<Rightarrow> c = NaN)"

definition derived_columns :: "string list" where
  "derived_columns =
     [''car_age'', ''price_norm'', ''depr_norm'', ''mileage_norm'', ''age_norm'',
      ''value_score'', ''value_rank'']"

definition normalised_columns :: "(string \<times> string) list" where
  "normalised_columns =
     [(''price_sgd'', ''price_norm''), (''depreciation_per_year'', ''depr_norm''),
      (''mileage_km'', ''mileage_norm''), (''car_age'', ''age_norm'')]"

text \<open>A batch of three records, the third with no scored attribute.\<close>

definition example_batch :: frame where
  "example_batch =
     \<lparr>index_len = 3,
      columns =
        [(''title'', [Str ''B'', Str ''A'', Str ''C'']),
         (''price_sgd'', [Num 80000, Num 50000, NaN]),
         (''mileage_km'', [Num 60000, Num 10000, NaN]),
         (''depreciation_per_year'', [Num 12000, Num 8000, NaN]),
         (''year'', [Num 2015, Num 2023, NaN])]\<rparr>"

text \<open>A batch in which only the first record has a price.\<close>

definition partial_batch :: frame where
  "partial_batch =
     \<lparr>index_len = 2,
      columns =
        [(''title'', [Str ''A'', Str ''B'']),
         (''price_sgd'', [Num 50000, NaN]),
         (''mileage_km'', [Num 10000, Num 60000]),
         (''depreciation_per_year'', [NaN, NaN]),
         (''year'', [NaN, NaN])]\<rparr>"


section \<open>Text and regular expressions\<close>

text \<open>
  Text is ASCII: a \<open>char\<close> is one code point below 128, which is where the classes
  \<open>\d\<close>, \<open>\s\<close>, \<open>\w\<close> of Python's \<open>re\<close> on \<open>str\<close> and the case folding of \<open>re.I\<close> are
  modelled. The patterns of the source use a small part of the regular-expression
  language: single characters and character classes, greedy repetition of a class,
  alternation, one capturing group and the word boundary. \<open>matches\<close> is the backtracking
  matcher of \<open>re\<close> for that part: a repetition takes the longest run first and gives
  characters back one at a time, an alternation tries its left branch first, and
  \<open>search_from\<close> returns the match at the leftmost position that has one.
\<close>

definition digits :: string where
  "digits = ''0123456789''"

definition whitespace :: string where
  "whitespace =
     [CHR 0x09, CHR 0x0A, CHR 0x0B, CHR 0x0C, CHR 0x0D, CHR 0x1C, CHR 0x1D, CHR 0x1E, CHR 0x1F,
      CHR 0x20]"

definition uppercase :: string where
  "uppercase = ''ABCDEFGHIJKLMNOPQRSTUVWXYZ''"

definition lowercase :: string where
  "lowercase = ''abcdefghijklmnopqrstuvwxyz''"

definition is_digit :: "char \<Rightarrow> bool" where
  "is_digit c = (c \<in> set digits)"

definition is_space :: "char \<Rightarrow> bool" where
  "is_space c = (c \<in> set whitespace)"

definition is_word :: "char \<Rightarrow> bool" where
  "is_word c = (c \<in> set (digits @ uppercase @ lowercase @ ''_''))"

definition lower :: "char \<Rightarrow> char" where
  "lower c = (case map_of (zip uppercase lowercase) c of None \<Rightarrow> c | Some l \<Rightarrow> l)"

datatype atom = Digit | Space | Lit char

datatype cls = One atom | AnyOf "atom list" | NoneOf "atom list"

datatype rx =
    Chr cls
  | Rep cls nat "nat option"
  | Alt "rx list" "rx list"
  | GOpen
  | GClose
  | WordB

fun atom_matches :: "bool \<Rightarrow> atom \<Rightarrow> char \<Rightarrow> bool" where
  "atom_matches ic Digit c = is_digit c"
| "atom_matches ic Space c = is_space c"
| "atom_matches ic (Lit a) c = (if ic then lower a = lower c else a = c)"

fun cls_matches :: "bool \<Rightarrow> cls \<Rightarrow> char \<Rightarrow> bool" where
  "cls_matches ic (One a) c = atom_matches ic a c"
| "cls_matches ic (AnyOf as) c = list_ex (\<lambda>a. atom_matches ic a c) as"
| "cls_matches ic (NoneOf as) c = (\<not> list_ex (\<lambda>a. atom_matches ic a c) as)"

record mstate =
  prev :: "char option"
  rest :: string
  gstart :: string
  group1 :: "string option"

fun advance :: "nat \<Rightarrow> mstate \<Rightarrow> mstate" where
  "advance 0 st = st"
| "advance (Suc n) st =
     (case rest st of [] \<Rightarrow> st | c # t \<Rightarrow> advance n (st\<lparr>prev := Some c, rest := t\<rparr>))"

fun first_down :: "(nat \<Rightarrow> 'a option) \<Rightarrow> nat \<Rightarrow> nat \<Rightarrow> 'a option" where
  "first_down k lo 0 = (if 0 < lo then None else k 0)"
| "first_down k lo (Suc n) =
     (if Suc n < lo then None
      else (case k (Suc n) of Some r \<Rightarrow> Some r | None \<Rightarrow> first_down k lo n))"

definition at_boundary :: "mstate \<Rightarrow> bool" where
  "at_boundary st =
     ((case prev st of None \<Rightarrow> False | Some c \<Rightarrow> is_word c) \<noteq>
      (case rest st of [] \<Rightarrow> False | c # t \<Rightarrow> is_word c))"

fun matches :: "bool \<Rightarrow> rx list \<Rightarrow> mstate \<Rightarrow> mstate option" where
  "matches ic [] st = Some st"
| "matches ic (Chr c # rs) st =
     (case rest st of
        [] \<Rightarrow> None
      | ch # t \<Rightarrow> if cls_matches ic c ch then matches ic rs (advance 1 st) else None)"
| "matches ic (Rep c lo hi # rs) st =
     (let run = length (takeWhile (cls_matches ic c) (rest st));
          most = (case hi of None \<Rightarrow> run | Some h \<Rightarrow> min h run)
      in first_down (\<lambda>n. matches ic rs (advance n st)) lo most)"
| "matches ic (Alt a b # rs) st =
     (case matches ic (a @ rs) st of Some r \<Rightarrow> Some r | None \<Rightarrow> matches ic (b @ rs) st)"
| "matches ic (GOpen # rs) st = matches ic rs (st\<lparr>gstart := rest st\<rparr>)"
| "matches ic (GClose # rs) st =
     matches ic rs
       (st\<lparr>group1 := Some (take (length (gstart st) - length (rest st)) (gstart st))\<rparr>)"
| "matches ic (WordB # rs) st = (if at_boundary st then matches ic rs st else None)"

fun search_from :: "bool \<Rightarrow> rx list \<Rightarrow> char option \<Rightarrow> string \<Rightarrow> mstate option" where
  "search_from ic rs p [] =
     matches ic rs \<lparr>prev = p, rest = [], gstart = [], group1 = None\<rparr>"
| "search_from ic rs p (c # t) =
     (case matches ic rs \<lparr>prev = p, rest = c # t, gstart = [], group1 = None\<rparr> of
        Some m \<Rightarrow> Some m
      | None \<Rightarrow> search_from ic rs (Some c) t)"

definition re_search :: "rx list \<Rightarrow> string \<Rightarrow> bool \<Rightarrow> mstate option" where
  "re_search pattern text ignorecase = search_from ignorecase pattern None text"

definition group_text :: "mstate \<Rightarrow> string" where
  "group_text m = (case group1 m of None \<Rightarrow> [] | Some s \<Rightarrow> s)"

text \<open>A literal string; \<open>x*\<close>, \<open>x+\<close>, \<open>x{m,n}\<close> and \<open>(?:x)?\<close>.\<close>

definition lit :: "string \<Rightarrow> rx list" where
  "lit s = map (\<lambda>c. Chr (One (Lit c))) s"

definition many :: "cls \<Rightarrow> rx" where
  "many c = Rep c 0 None"

definition many1 :: "cls \<Rightarrow> rx" where
  "many1 c = Rep c 1 None"

definition between :: "cls \<Rightarrow> nat \<Rightarrow> nat \<Rightarrow> rx" where
  "between c m n = Rep c m (Some n)"

definition opt :: "rx list \<Rightarrow> rx" where
  "opt r = Alt r []"

section \<open>The listing fetcher (live_search.py)\<close>

definition UAS :: "string list" where
  "UAS =
     [''Mozilla/5.0 (Macintosh; Intel Mac OS X 10_15_7) AppleWebKit/537.36 (KHTML, like Gecko) Chrome/122.0 Safari/537.36'',
      ''Mozilla/5.0 (Windows NT 10.0; Win64; x64) AppleWebKit/537.36 (KHTML, like Gecko) Chrome/120.0 Safari/537.36'',
      ''Mozilla/5.0 (X11; Linux x86_64) AppleWebKit/537.36 (KHTML, like Gecko) Chrome/121.0 Safari/537.36'']"

definition BASE_URL :: string where
  "BASE_URL = ''https://www.sgcarmart.com/used-cars/listing''"

text \<open>
  \<open>_headers\<close>: \<open>random.choice(UAS)\<close> picks the element at a position that the generator
  draws below the length of the list; \<open>draw\<close> is the generator's number for this call.
\<close>

definition random_choice :: "nat \<Rightarrow> 'a list \<Rightarrow> 'a" where
  "random_choice draw xs = xs ! (draw mod length xs)"

definition headers :: "nat \<Rightarrow> (string \<times> string) list" where
  "headers draw = [(''User-Agent'', random_choice draw UAS)]"

text \<open>\<open>_clean\<close>: \<open>re.sub(r"\s+", " ", t).strip()\<close>, and the empty string for no text.\<close>

function sub_spaces :: "string \<Rightarrow> string" where
  "sub_spaces [] = []"
| "sub_spaces (c # t) =
     (if is_space c then CHR '' '' # sub_spaces (dropWhile is_space t) else c # sub_spaces t)"
  by pat_completeness auto
termination
  by (relation "measure length") (auto simp: length_dropWhile_le less_Suc_eq_le)

definition strip :: "string \<Rightarrow> string" where
  "strip s = rev (dropWhile is_space (rev (dropWhile is_space s)))"

definition clean :: "string option \<Rightarrow> string" where
  "clean t = (case t of None \<Rightarrow> [] | Some s \<Rightarrow> if s = [] then [] else strip (sub_spaces s))"

text \<open>
  \<open>_to_int\<close>: keep the digits, \<open>int\<close> of them if there is any. \<open>int\<close> and \<open>float\<close> read
  plain decimal literals, digits for \<open>int\<close> and digits with an optional point for
  \<open>float\<close>, which is all that the patterns of the source capture; on anything else they
  answer \<open>None\<close>, the \<open>ValueError\<close> that the source turns into a missing field. The value
  of \<open>float\<close> is the exact rational of the literal.
\<close>

definition digit_value :: "char \<Rightarrow> int" where
  "digit_value c =
     (case map_of (zip digits [0, 1, 2, 3, 4, 5, 6, 7, 8, 9]) c of None \<Rightarrow> 0 | Some d \<Rightarrow> d)"

definition int_of_digits :: "string \<Rightarrow> int" where
  "int_of_digits s = foldl (\<lambda>n c. 10 * n + digit_value c) 0 s"

definition isdigit :: "string \<Rightarrow> bool" where
  "isdigit s = (s \<noteq> [] \<and> list_all is_digit s)"

definition to_int :: "string option \<Rightarrow> int option" where
  "to_int s =
     (case s of
        None \<Rightarrow> None
      | Some s \<Rightarrow>
          if s = [] then None
          else let s = filter is_digit s in if isdigit s then Some (int_of_digits s) else None)"

definition py_int :: "string \<Rightarrow> int option" where
  "py_int s = (if isdigit s then Some (int_of_digits s) else None)"

definition py_float :: "string \<Rightarrow> rat option" where
  "py_float s =
     (let whole = takeWhile (\<lambda>c. c \<noteq> CHR ''.'') s;
          frac = drop (length whole + 1) s
      in if length whole = length s
         then (if isdigit whole then Some (of_int (int_of_digits whole)) else None)
         else if whole = [] \<and> frac = [] then None
         else if (whole = [] \<or> isdigit whole) \<and> (frac = [] \<or> isdigit frac)
         then Some (of_int (int_of_digits whole) + of_int (int_of_digits frac) / 10 ^ length frac)
         else None)"

text \<open>The patterns of the source, in its order.\<close>

definition digits_commas :: cls where
  "digits_commas = AnyOf [Digit, Lit CHR '','']"

definition price_pattern :: "rx list" where
  \<comment> \<open>\<^verbatim>\<open>\$\s*([\d,]+)\<close>\<close>
  "price_pattern = lit ''$'' @ [many (One Space), GOpen, many1 digits_commas, GClose]"

definition mileage_pattern :: "rx list" where
  \<comment> \<open>\<^verbatim>\<open>([\d,]+)\s*km\b\<close>\<close>
  "mileage_pattern =
     [GOpen, many1 digits_commas, GClose, many (One Space)] @ lit ''km'' @ [WordB]"

definition depreciation_pattern :: "rx list" where
  \<comment> \<open>\<^verbatim>\<open>Depreciation[^$]*\$\s*([\d,]+)/yr\<close>\<close>
  "depreciation_pattern =
     lit ''Depreciation'' @ [many (NoneOf [Lit CHR ''$''])] @ lit ''$'' @
     [many (One Space), GOpen, many1 digits_commas, GClose] @ lit ''/yr''"

definition per_year_pattern :: "rx list" where
  \<comment> \<open>\<^verbatim>\<open>\$\s*([\d,]+)/yr\<close>\<close>
  "per_year_pattern =
     lit ''$'' @ [many (One Space), GOpen, many1 digits_commas, GClose] @ lit ''/yr''"

definition engine_pattern :: "rx list" where
  \<comment> \<open>\<^verbatim>\<open>(\d{3,4})\s*cc\b\<close>\<close>
  "engine_pattern =
     [GOpen, between (One Digit) 3 4, GClose, many (One Space)] @ lit ''cc'' @ [WordB]"

definition year_pattern :: "rx list" where
  \<comment> \<open>\<^verbatim>\<open>\b(20\d{2}|19\d{2})\b\<close>\<close>
  "year_pattern =
     [WordB, GOpen,
      Alt (lit ''20'' @ [between (One Digit) 2 2]) (lit ''19'' @ [between (One Digit) 2 2]),
      GClose, WordB]"

definition coe_pattern :: "rx list" where
  \<comment> \<open>\<^verbatim>\<open>(\d+(?:\.\d+)?)\s*(?:yr|yrs)\s*COE\s*left\<close>\<close>
  "coe_pattern =
     [GOpen, many1 (One Digit), opt (lit ''.'' @ [many1 (One Digit)]), GClose,
      many (One Space), Alt (lit ''yr'') (lit ''yrs''), many (One Space)] @
     lit ''COE'' @ [many (One Space)] @ lit ''left''"

text \<open>
  A listing card as the HTML parser hands it over: its text, \<open>card.get_text(" ")\<close>, and
  the first link to a detail page, \<open>card.select_one("a[href*='/used-cars/info/']")\<close>, with
  the link's text and its \<open>href\<close>.
\<close>

record card =
  card_text :: "string option"
  link_el :: "(string \<times> string option) option"

definition or_else :: "string option \<Rightarrow> string \<Rightarrow> string" where
  "or_else s d = (case s of None \<Rightarrow> d | Some v \<Rightarrow> if v = [] then d else v)"

definition startswith :: "string \<Rightarrow> string \<Rightarrow> bool" where
  "startswith s p = (take (length p) s = p)"

text \<open>The field blocks of the loop body, each a search in the card's cleaned text.\<close>

definition find_price :: "string \<Rightarrow> int option" where
  "find_price raw_text =
     (if raw_text \<noteq> [] then
        (case re_search price_pattern raw_text False of
           Some mp \<Rightarrow> to_int (Some (group_text mp))
         | None \<Rightarrow> None)
      else None)"

definition find_mileage :: "string \<Rightarrow> int option" where
  "find_mileage raw_text =
     (if raw_text \<noteq> [] then
        (case re_search mileage_pattern raw_text True of
           Some mm \<Rightarrow> to_int (Some (group_text mm))
         | None \<Rightarrow> None)
      else None)"

definition find_depreciation :: "string \<Rightarrow> int option" where
  "find_depreciation raw_text =
     (if raw_text \<noteq> [] then
        (let md = re_search depreciation_pattern raw_text True;
             md = (if md = None then re_search per_year_pattern raw_text True else md)
         in case md of Some m \<Rightarrow> to_int (Some (group_text m)) | None \<Rightarrow> None)
      else None)"

definition find_engine :: "string \<Rightarrow> int option" where
  "find_engine raw_text =
     (if raw_text \<noteq> [] then
        (case re_search engine_pattern raw_text True of
           Some me \<Rightarrow> to_int (Some (group_text me))
         | None \<Rightarrow> None)
      else None)"

definition find_year :: "string \<Rightarrow> int option" where
  "find_year raw_text =
     (if raw_text \<noteq> [] then
        (case re_search year_pattern raw_text False of
           Some my \<Rightarrow> py_int (group_text my)
         | None \<Rightarrow> None)
      else None)"

definition find_coe :: "string \<Rightarrow> rat option" where
  "find_coe raw_text =
     (if raw_text \<noteq> [] then
        (case re_search coe_pattern raw_text True of
           Some mc \<Rightarrow> py_float (group_text mc)
         | None \<Rightarrow> None)
      else None)"

record listing =
  title :: "string option"
  listing_url :: "string option"
  price_sgd :: "int option"
  mileage_km :: "int option"
  depreciation_per_year :: "int option"
  year :: "int option"
  coe_left_years :: "rat option"
  engine_cc :: "int option"
  raw_text :: string

text \<open>The body of the loop over the cards: one listing from one card.\<close>

definition extract_listing :: "card \<Rightarrow> listing" where
  "extract_listing c =
     (let raw_text = clean (Some (or_else (card_text c) []));
          (title, listing_url) =
            (case link_el c of
               Some (link_text, href_attr) \<Rightarrow>
                 (let title = clean (Some link_text);
                      href = or_else href_attr []
                  in if startswith href ''/''
                     then (Some title, Some (''https://www.sgcarmart.com'' @ href))
                     else (Some title, if href = [] then None else Some href))
             | None \<Rightarrow> (None, None))
      in \<lparr>title = title, listing_url = listing_url, price_sgd = find_price raw_text,
          mileage_km = find_mileage raw_text,
          depreciation_per_year = find_depreciation raw_text,
          year = find_year raw_text, coe_left_years = find_coe raw_text,
          engine_cc = find_engine raw_text, raw_text = raw_text\<rparr>)"

definition example_text :: string where
  "example_text =
     ''Toyota Corolla 2019 $58,000 45,000 km 1800cc Depreciation $9,200/yr 3.5 yrs COE left''"

text \<open>
  \<open>pd.DataFrame(rows)\<close> for a list of dictionaries with the nine keys of the source: one
  column per key, in the order of the keys, one row per dictionary.
\<close>

definition text_cell :: "string option \<Rightarrow> cell" where
  "text_cell v = (case v of None \<Rightarrow> NaN | Some s \<Rightarrow> Str s)"

definition int_cell :: "int option \<Rightarrow> cell" where
  "int_cell v = (case v of None \<Rightarrow> NaN | Some n \<Rightarrow> Num (of_int n))"

definition DataFrame :: "listing list \<Rightarrow> frame" where
  "DataFrame rows =
     (if rows = [] then DataFrame_empty
      else
        \<lparr>index_len = length rows,
         columns =
           [(''title'', map (\<lambda>r. text_cell (title r)) rows),
            (''listing_url'', map (\<lambda>r. text_cell (listing_url r)) rows),
            (''price_sgd'', map (\<lambda>r. int_cell (price_sgd r)) rows),
            (''mileage_km'', map (\<lambda>r. int_cell (mileage_km r)) rows),
            (''depreciation_per_year'', map (\<lambda>r. int_cell (depreciation_per_year r)) rows),
            (''year'', map (\<lambda>r. int_cell (year r)) rows),
            (''coe_left_years'', map (\<lambda>r. to_cell (coe_left_years r)) rows),
            (''engine_cc'', map (\<lambda>r. int_cell (engine_cc r)) rows),
            (''raw_text'', map (\<lambda>r. Str (raw_text r)) rows)]\<rparr>)"

text \<open>
  The request and the world it goes to. \<open>requests.get\<close> either raises or answers with a
  status code and a body; the HTML parser selects the listing cards of a body. Both
  belong to libraries and to the network, so the fetcher takes them, and the generator's
  draw, as its world.
\<close>

datatype pval = PInt int | PStr string

record request =
  url :: string
  params :: "(string \<times> pval) list"
  req_headers :: "(string \<times> string) list"
  timeout :: nat

datatype http_result = Raised | Response int string

record world =
  draw :: nat
  requests_get :: "request \<Rightarrow> http_result"
  select_cards :: "string \<Rightarrow> card list"

definition build_params :: "int option \<Rightarrow> int option \<Rightarrow> string option \<Rightarrow> (string \<times> pval) list"
where
  "build_params budget_min budget_max make' =
     (let params = [(''avl'', PStr ''a''), (''limit'', PInt 60), (''page'', PInt 1)];
          params = (case budget_min of
                      None \<Rightarrow> params
                    | Some n \<Rightarrow> if n \<noteq> 0 then AList.update ''PR1'' (PInt n) params else params);
          params = (case budget_max of
                      None \<Rightarrow> params
                    | Some n \<Rightarrow> if n \<noteq> 0 then AList.update ''PR2'' (PInt n) params else params);
          params = (case make' of
                      None \<Rightarrow> params
                    | Some s \<Rightarrow> if s \<noteq> [] then AList.update ''Make'' (PStr s) params else params)
      in params)"

definition build_request ::
  "nat \<Rightarrow> int option \<Rightarrow> int option \<Rightarrow> string option \<Rightarrow> request" where
  "build_request d budget_min budget_max make' =
     \<lparr>url = BASE_URL, params = build_params budget_min budget_max make',
      req_headers = headers d, timeout = 20\<rparr>"

text \<open>The loop over the cards, with its \<open>break\<close> once \<open>max_results\<close> rows are there.\<close>

fun collect_rows :: "card list \<Rightarrow> listing list \<Rightarrow> int \<Rightarrow> listing list" where
  "collect_rows [] rows max_results = rows"
| "collect_rows (c # cards) rows max_results =
     (let rows = rows @ [extract_listing c]
      in if int (length rows) \<ge> max_results then rows else collect_rows cards rows max_results)"

definition fetch_used_cars_live ::
  "world \<Rightarrow> int option \<Rightarrow> int option \<Rightarrow> string option \<Rightarrow> int \<Rightarrow> frame" where
  "fetch_used_cars_live w budget_min budget_max make' max_results =
     (case requests_get w (build_request (draw w) budget_min budget_max make') of
        Raised \<Rightarrow> DataFrame_empty
      | Response status_code html \<Rightarrow>
          if status_code \<noteq> 200 then DataFrame_empty
          else
            let cards = select_cards w html in
            if cards = [] then DataFrame_empty
            else DataFrame (collect_rows cards [] max_results))"

text \<open>Three worlds in which the fetch fails, and one in which it finds a card.\<close>

definition example_card :: card where
  "example_card = \<lparr>card_text = Some example_text, link_el = None\<rparr>"

definition world_down :: world where
  "world_down = \<lparr>draw = 0, requests_get = (\<lambda>r. Raised), select_cards = (\<lambda>html. [])\<rparr>"

definition world_blocked :: world where
  "world_blocked =
     \<lparr>draw = 1, requests_get = (\<lambda>r. Response 403 ''Forbidden''),
      select_cards = (\<lambda>html. [example_card])\<rparr>"

definition world_restyled :: world where
  "world_restyled =
     \<lparr>draw = 2, requests_get = (\<lambda>r. Response 200 ''<html></html>''),
      select_cards = (\<lambda>html. [])\<rparr>"

definition world_up :: world where
  "world_up =
     \<lparr>draw = 0, requests_get = (\<lambda>r. Response 200 ''<html>...</html>''),
      select_cards = (\<lambda>html. [example_card])\<rparr>"

section \<open>Frames: basic facts\<close>

lemma getitem_setitem: "getitem (setitem k v df) k' = (if k' = k then Inr v else getitem df k')"
  by (simp add: getitem_def setitem_def update_conv')

lemma index_len_setitem: "index_len (setitem k v df) = index_len df"
  by (simp add: setitem_def)

lemma has_column_setitem: "has_column k' (setitem k v df) = (k' = k \<or> has_column k' df)"
  by (simp add: has_column_def setitem_def update_conv')

lemma sorts_descending_stable: "sorts_descending indexer_stable"
  unfolding sorts_descending_def indexer_stable_def
proof (intro allI conjI)
  fix keys :: "rat list"
  show "mset (sort_key (\<lambda>i. - keys ! i) [0..<length keys]) = mset [0..<length keys]"
    by simp
  have "sorted (map (\<lambda>i. - keys ! i) (sort_key (\<lambda>i. - keys ! i) [0..<length keys]))"
    by (rule sorted_sort_key)
  then show "sorted_wrt (\<lambda>a b. b \<le> a)
               (map ((!) keys) (sort_key (\<lambda>i. - keys ! i) [0..<length keys]))"
    by (simp add: sorted_wrt_map)
qed

section \<open>The scorer on a scorable batch\<close>

lemma astype_float64_no_text: "no_text c \<Longrightarrow> astype_float64 c = Inr (map cell_float c)"
  by (induction c) (auto simp: no_text_def cell_float_def split: cell.splits)

lemma rsub_no_text:
  "no_text c \<Longrightarrow> rsub a c = Inr (map (\<lambda>v. to_cell (map_option (\<lambda>y. a - y) (cell_float v))) c)"
  by (induction c) (auto simp: no_text_def cell_float_def to_cell_def split: cell.splits)

lemma astype_float64_to_cell: "astype_float64 (map to_cell xs) = Inr xs"
  by (induction xs) (auto simp: to_cell_def split: option.splits)

lemma float_column_setitem:
  "float_column (setitem k (map to_cell xs) df) k' =
     (if k' = k then Inr xs else float_column df k')"
  by (simp add: float_column_def getitem_setitem astype_float64_to_cell)

lemma float_column_numeric: "numeric df name \<Longrightarrow> float_column df name = Inr (raw df name)"
  by (auto simp: numeric_def float_column_def getitem_def raw_def astype_float64_no_text
      split: option.splits)

lemma car_age_cells:
  assumes "has_column ''year'' df \<longrightarrow> numeric df ''year''"
  shows "(if has_column ''year'' df
          then (case getitem df ''year'' of Inl e \<Rightarrow> Inl e | Inr y \<Rightarrow> rsub current_year y)
          else Inr (replicate (index_len df) NaN)) = Inr (map to_cell (car_age df))"
proof (cases "map_of (columns df) ''year''")
  case None
  then show ?thesis
    by (simp add: has_column_def car_age_def raw_def to_cell_def)
next
  case (Some col)
  with assms have "no_text col"
    by (simp add: has_column_def numeric_def)
  with Some show ?thesis
    by (simp add: has_column_def getitem_def car_age_def raw_def rsub_no_text)
qed

lemma compute_value_scores_scorable:
  assumes "scorable df"
  shows "compute_value_scores ix df = Inr (ranked ix (scored df))"
proof -
  from assms have ne: "\<not> empty df"
    and p: "numeric df ''price_sgd''" and d: "numeric df ''depreciation_per_year''"
    and m: "numeric df ''mileage_km''" and y: "has_column ''year'' df \<longrightarrow> numeric df ''year''"
    by (simp_all add: scorable_def)
  note ca = car_age_cells [OF y]
  have fp: "float_column df ''price_sgd'' = Inr (raw df ''price_sgd'')"
    and fd: "float_column df ''depreciation_per_year'' = Inr (raw df ''depreciation_per_year'')"
    and fm: "float_column df ''mileage_km'' = Inr (raw df ''mileage_km'')"
    using p d m by (simp_all add: float_column_numeric)
  show ?thesis
    unfolding compute_value_scores_def
    by (simp only: ne ca if_False sum.case Let_def norm_col_def float_column_setitem fp fd fm
        index_len_setitem scored_def ranked_def scores_of_def)
       simp
qed

lemma set_present: "set (present x) = {a. Some a \<in> set x}"
  by (induction x) (auto simp: present_def split: option.splits)

lemma series_min_Min: "vals \<noteq> [] \<Longrightarrow> series_min vals = Min (set vals)"
  using Min.set_eq_fold [of "hd vals" "tl vals"] by (cases vals) simp_all

lemma series_max_Max: "vals \<noteq> [] \<Longrightarrow> series_max vals = Max (set vals)"
  using Max.set_eq_fold [of "hd vals" "tl vals"] by (cases vals) simp_all

lemma length_norm_series: "length (norm_series h x) = length x"
  by (simp add: norm_series_def Let_def)

lemma norm_series_nth:
  assumes "i < length x"
  shows "norm_series False x ! i =
     (case x ! i of None \<Rightarrow> None
      | Some a \<Rightarrow>
          if Max {a. Some a \<in> set x} = Min {a. Some a \<in> set x} then Some (1 / 2)
          else Some ((Max {a. Some a \<in> set x} - a) / (Max {a. Some a \<in> set x} - Min {a. Some a \<in> set x})))"
proof (cases "x ! i")
  case None
  with assms show ?thesis
    by (simp add: norm_series_def Let_def)
next
  case (Some a)
  with assms have "Some a \<in> set x"
    by (metis nth_mem)
  then have ne: "present x \<noteq> []"
    using set_present [of x] by auto
  with assms Some show ?thesis
    by (simp add: norm_series_def Let_def series_min_Min series_max_Max set_present)
qed

lemma norm_series_range:
  assumes "Some v \<in> set (norm_series False x)"
  shows "0 \<le> v \<and> v \<le> 1"
proof -
  let ?P = "{a. Some a \<in> set x}"
  from assms obtain i where i: "i < length x" and v: "norm_series False x ! i = Some v"
    by (metis in_set_conv_nth length_norm_series)
  from v i obtain a where a: "x ! i = Some a"
    by (cases "x ! i") (simp_all add: norm_series_nth)
  have fin: "finite ?P"
  proof -
    have "?P \<subseteq> the ` set x" by force
    then show ?thesis by (rule finite_subset) simp
  qed
  have mem: "a \<in> ?P" using a i by (metis mem_Collect_eq nth_mem)
  have lo: "Min ?P \<le> a" and hi: "a \<le> Max ?P"
    using fin mem by simp_all
  show ?thesis
  proof (cases "Max ?P = Min ?P")
    case True
    with v i a show ?thesis by (simp add: norm_series_nth)
  next
    case False
    with lo hi have pos: "0 < Max ?P - Min ?P" by simp
    from False v i a have "v = (Max ?P - a) / (Max ?P - Min ?P)"
      by (simp add: norm_series_nth)
    with pos lo hi show ?thesis by (simp add: divide_le_eq)
  qed
qed

lemma rint_bounds:
  assumes "of_int lo \<le> x" and "x \<le> of_int hi"
  shows "lo \<le> rint x \<and> rint x \<le> hi"
proof -
  have f1: "lo \<le> \<lfloor>x\<rfloor>" using assms(1) by (simp add: le_floor_iff)
  have f2: "\<lfloor>x\<rfloor> \<le> hi" using assms(2) by (simp add: floor_le_iff)
  show ?thesis
  proof (cases "\<lfloor>x\<rfloor> = hi")
    case True
    then have "x - of_int \<lfloor>x\<rfloor> = 0"
      using assms(2) of_int_floor_le [of x] by simp
    then have "rint x = \<lfloor>x\<rfloor>"
      by (simp add: rint_def Let_def)
    with f1 f2 show ?thesis by simp
  next
    case False
    with f2 have "\<lfloor>x\<rfloor> + 1 \<le> hi" by simp
    moreover have "rint x = \<lfloor>x\<rfloor> \<or> rint x = \<lfloor>x\<rfloor> + 1"
      by (simp add: rint_def Let_def)
    ultimately show ?thesis using f1 by auto
  qed
qed

lemma np_round1_range:
  assumes "0 \<le> x" and "x \<le> 100"
  shows "0 \<le> np_round1 x \<and> np_round1 x \<le> 100"
proof -
  have "of_int 0 \<le> x * 10" and "x * 10 \<le> of_int 1000"
    using assms by simp_all
  then have "0 \<le> rint (x * 10) \<and> rint (x * 10) \<le> 1000"
    by (rule rint_bounds)
  then have "(0::rat) \<le> of_int (rint (x * 10))" and "(of_int (rint (x * 10))::rat) \<le> 1000"
    by simp_all
  then show ?thesis
    by (simp add: np_round1_def)
qed

lemma safe_val_range:
  assumes "v = None \<or> (\<exists>a. v = Some a \<and> 0 \<le> a \<and> a \<le> 1)"
  shows "0 \<le> safe_val v \<and> safe_val v \<le> 1"
  using assms by (auto simp: safe_val_def)

lemma score_range:
  assumes "0 \<le> safe_val p \<and> safe_val p \<le> 1" "0 \<le> safe_val d \<and> safe_val d \<le> 1"
    "0 \<le> safe_val m \<and> safe_val m \<le> 1" "0 \<le> safe_val a \<and> safe_val a \<le> 1"
  shows "0 \<le> score p d m a * 100 \<and> score p d m a * 100 \<le> 100"
  using assms by (simp add: score_def Let_def)

lemma map_of_scored:
  "map_of (columns (scored df)) =
     (map_of (columns df))
       (''car_age'' \<mapsto> map to_cell (car_age df),
        ''price_norm'' \<mapsto> map to_cell (norm_series False (raw df ''price_sgd'')),
        ''depr_norm'' \<mapsto> map to_cell (norm_series False (raw df ''depreciation_per_year'')),
        ''mileage_norm'' \<mapsto> map to_cell (norm_series False (raw df ''mileage_km'')),
        ''age_norm'' \<mapsto> map to_cell (norm_series False (car_age df)),
        ''value_score'' \<mapsto> map Num (scores_of df))"
  by (simp add: scored_def setitem_def update_conv')

lemma index_len_scored: "index_len (scored df) = index_len df"
  by (simp add: scored_def setitem_def)

lemma length_scores_of: "length (scores_of df) = index_len df"
  by (simp add: scores_of_def value_scores_def)

lemma num_column_scored: "num_column (scored df) ''value_score'' = scores_of df"
  by (simp add: num_column_def map_of_scored comp_def)

lemma map_of_take_rows:
  "map_of (columns (take_rows perm df)) name =
     map_option (\<lambda>col. map ((!) col) perm) (map_of (columns df) name)"
  by (simp add: take_rows_def map_of_map)

lemma index_len_ranked:
  "index_len (ranked ix df) = length (ix (num_column df ''value_score''))"
  by (simp add: ranked_def Let_def setitem_def sort_values_desc_def take_rows_def)

lemma map_of_ranked:
  "map_of (columns (ranked ix df)) name =
     (if name = ''value_rank''
      then Some (map (\<lambda>i. Num (of_nat (i + 1)))
                  [0..<length (ix (num_column df ''value_score''))])
      else map_option (\<lambda>col. map ((!) col) (ix (num_column df ''value_score'')))
             (map_of (columns df) name))"
  by (simp add: ranked_def Let_def setitem_def update_conv' sort_values_desc_def
      map_of_take_rows) (simp add: take_rows_def)

lemma wf_frame_column:
  assumes "wf_frame df" and "map_of (columns df) name = Some col"
  shows "length col = index_len df"
proof -
  from assms(2) have "(name, col) \<in> set (columns df)"
    by (rule map_of_SomeD)
  with assms(1) show ?thesis
    by (auto simp: wf_frame_def list_all_iff)
qed

lemma length_raw: "wf_frame df \<Longrightarrow> length (raw df name) = index_len df"
  by (auto simp: raw_def wf_frame_column split: option.splits)

lemma length_car_age: "wf_frame df \<Longrightarrow> length (car_age df) = index_len df"
  by (simp add: car_age_def length_raw)

lemma scored_column_length:
  assumes "wf_frame df" and "map_of (columns (scored df)) name = Some col"
  shows "length col = index_len df"
  using assms
  by (auto simp: map_of_scored length_norm_series length_raw length_car_age length_scores_of
      wf_frame_column split: if_splits)

lemma indexer_perm:
  assumes "sorts_descending ix"
  shows "length (ix keys) = length keys" and "set (ix keys) = {0..<length keys}"
    and "distinct (ix keys)"
proof -
  from assms have m: "mset (ix keys) = mset [0..<length keys]"
    by (simp add: sorts_descending_def)
  from m show "length (ix keys) = length keys"
    by (metis length_upt mset_eq_length minus_nat.diff_0)
  from m show "set (ix keys) = {0..<length keys}"
    by (metis mset_eq_setD set_upt)
  from m show "distinct (ix keys)"
    by (metis distinct_upt mset_eq_imp_distinct_iff)
qed

text \<open>Cells of the ranked frame.\<close>

lemma ranked_cell:
  assumes "scorable df" and "sorts_descending ix" and "j < index_len df"
    and "name \<noteq> ''value_rank''"
  shows "cell_at (ranked ix (scored df)) name j =
           cell_at (scored df) name (ix (scores_of df) ! j)"
proof -
  let ?perm = "ix (scores_of df)"
  have wf: "wf_frame df" using assms(1) by (simp add: scorable_def)
  have len: "length ?perm = index_len df"
    using indexer_perm(1) [OF assms(2)] by (simp add: length_scores_of)
  have "?perm ! j \<in> set ?perm"
    using assms(3) len by simp
  then have lt: "?perm ! j < index_len df"
    using indexer_perm(2) [OF assms(2), of "scores_of df"] by (simp add: length_scores_of)
  show ?thesis
  proof (cases "map_of (columns (scored df)) name")
    case None
    with assms(4) show ?thesis
      by (simp add: cell_at_def map_of_ranked)
  next
    case (Some col)
    then have "length col = index_len df"
      using wf by (rule scored_column_length [rotated])
    with Some assms(3,4) len lt show ?thesis
      by (simp add: cell_at_def map_of_ranked num_column_scored)
  qed
qed

lemma ranked_rank_cell:
  assumes "sorts_descending ix" and "j < index_len df"
  shows "cell_at (ranked ix (scored df)) ''value_rank'' j = Some (Num (of_nat (j + 1)))"
proof -
  have "length (ix (scores_of df)) = index_len df"
    using indexer_perm(1) [OF assms(1)] by (simp add: length_scores_of)
  with assms(2) show ?thesis
    by (simp add: cell_at_def map_of_ranked num_column_scored)
qed

lemma index_len_ranked_scored:
  assumes "sorts_descending ix"
  shows "index_len (ranked ix (scored df)) = index_len df"
  using indexer_perm(1) [OF assms] by (simp add: index_len_ranked num_column_scored length_scores_of)

lemma norm_cell:
  assumes "i < length x"
  shows "(x ! i = None \<and> norm_series False x ! i = None) \<or>
         (\<exists>a v. x ! i = Some a \<and> norm_series False x ! i = Some v \<and> 0 \<le> v \<and> v \<le> 1)"
proof (cases "x ! i")
  case None
  with assms show ?thesis by (simp add: norm_series_nth)
next
  case (Some a)
  with assms have "norm_series False x ! i \<noteq> None"
    by (simp add: norm_series_nth del: not_None_eq)
  then obtain v where v: "norm_series False x ! i = Some v"
    by blast
  with assms have "Some v \<in> set (norm_series False x)"
    by (metis length_norm_series nth_mem)
  then have "0 \<le> v \<and> v \<le> 1"
    by (rule norm_series_range)
  with Some v show ?thesis by simp
qed

lemma scores_of_nth:
  "i < index_len df \<Longrightarrow>
   scores_of df ! i =
     np_round1 (score (norm_series False (raw df ''price_sgd'') ! i)
                  (norm_series False (raw df ''depreciation_per_year'') ! i)
                  (norm_series False (raw df ''mileage_km'') ! i)
                  (norm_series False (car_age df) ! i) * 100)"
  by (simp add: scores_of_def value_scores_def)

lemma norm_safe_val_range:
  assumes "i < length x"
  shows "0 \<le> safe_val (norm_series False x ! i) \<and> safe_val (norm_series False x ! i) \<le> 1"
  using norm_cell [OF assms] by (auto simp: safe_val_def)

lemma scores_of_range:
  assumes "wf_frame df" and "i < index_len df"
  shows "0 \<le> scores_of df ! i \<and> scores_of df ! i \<le> 100"
proof -
  have "0 \<le> score (norm_series False (raw df ''price_sgd'') ! i)
                  (norm_series False (raw df ''depreciation_per_year'') ! i)
                  (norm_series False (raw df ''mileage_km'') ! i)
                  (norm_series False (car_age df) ! i) * 100 \<and>
        score (norm_series False (raw df ''price_sgd'') ! i)
                  (norm_series False (raw df ''depreciation_per_year'') ! i)
                  (norm_series False (raw df ''mileage_km'') ! i)
                  (norm_series False (car_age df) ! i) * 100 \<le> 100"
    using assms by (intro score_range norm_safe_val_range) (simp_all add: length_raw length_car_age)
  then show ?thesis
    using assms(2) by (simp add: scores_of_nth np_round1_range)
qed

lemma np_round1_50: "np_round1 (score None None None None * 100) = 50"
  by (simp add: score_def safe_val_def np_round1_def rint_def)

lemma scored_cell_passthrough:
  assumes "name \<notin> set derived_columns"
  shows "cell_at (scored df) name i = cell_at df name i"
  using assms by (simp add: cell_at_def map_of_scored derived_columns_def)

lemma scored_cell_value_score:
  assumes "i < index_len df"
  shows "cell_at (scored df) ''value_score'' i = Some (Num (scores_of df ! i))"
  using assms by (simp add: cell_at_def map_of_scored length_scores_of)

lemma absent_raw:
  assumes "wf_frame df" and "i < index_len df" and "absent df name i"
  shows "raw df name ! i = None"
proof (cases "map_of (columns df) name")
  case None
  with assms(2) show ?thesis by (simp add: raw_def)
next
  case (Some col)
  with assms(1) have "length col = index_len df" by (rule wf_frame_column)
  with Some assms(2,3) show ?thesis
    by (simp add: raw_def absent_def cell_at_def cell_float_def)
qed

lemma norm_series_None:
  "i < length x \<Longrightarrow> x ! i = None \<Longrightarrow> norm_series False x ! i = None"
  by (simp add: norm_series_nth)


lemma scorable_example_batch: "scorable example_batch"
  by code_simp

lemma norm_pair:
  assumes "i < length x"
  shows "(to_cell (x ! i) = NaN \<and> to_cell (norm_series False x ! i) = NaN) \<or>
         (\<exists>a v. to_cell (x ! i) = Num a \<and> to_cell (norm_series False x ! i) = Num v \<and>
                0 \<le> v \<and> v \<le> 1)"
  using norm_cell [OF assms] by (auto simp: to_cell_def)

lemma raw_cell:
  assumes "wf_frame df" and "numeric df attr" and "i < index_len df"
  shows "cell_at df attr i = Some (to_cell (raw df attr ! i))"
proof -
  from assms(2) obtain col where col: "map_of (columns df) attr = Some col" and nt: "no_text col"
    by (auto simp: numeric_def split: option.splits)
  from assms(1) col have len: "length col = index_len df"
    by (rule wf_frame_column)
  with assms(3) have "col ! i \<in> set col"
    by simp
  with nt have "to_cell (cell_float (col ! i)) = col ! i"
    by (cases "col ! i") (auto simp: no_text_def list_all_iff to_cell_def cell_float_def)
  with col len assms(3) show ?thesis
    by (simp add: cell_at_def raw_def)
qed

lemma normalised_columns_cases:
  assumes "(attr, nm) \<in> set normalised_columns"
  obtains
      "attr = ''price_sgd''" "nm = ''price_norm''"
    | "attr = ''depreciation_per_year''" "nm = ''depr_norm''"
    | "attr = ''mileage_km''" "nm = ''mileage_norm''"
    | "attr = ''car_age''" "nm = ''age_norm''"
proof -
  from assms have "(attr, nm) = (''price_sgd'', ''price_norm'') \<or>
      (attr, nm) = (''depreciation_per_year'', ''depr_norm'') \<or>
      (attr, nm) = (''mileage_km'', ''mileage_norm'') \<or>
      (attr, nm) = (''car_age'', ''age_norm'')"
    unfolding normalised_columns_def by (simp only: list.set insert_iff empty_iff simp_thms)
  then show thesis
    by (elim disjE Pair_inject) (rule that; assumption)+
qed

lemma normalised_columns_not_rank:
  assumes "(attr, nm) \<in> set normalised_columns"
  shows "attr \<noteq> ''value_rank''" and "nm \<noteq> ''value_rank''"
  using assms by (cases rule: normalised_columns_cases; simp)+

lemma scored_pair:
  assumes "scorable df" and "i < index_len df" and "(attr, nm) \<in> set normalised_columns"
  shows "\<exists>x. length x = index_len df \<and>
             cell_at (scored df) attr i = Some (to_cell (x ! i)) \<and>
             cell_at (scored df) nm i = Some (to_cell (norm_series False x ! i))"
proof -
  have wf: "wf_frame df" and p: "numeric df ''price_sgd''"
    and d: "numeric df ''depreciation_per_year''" and m: "numeric df ''mileage_km''"
    using assms(1) by (simp_all add: scorable_def)
  have pass: "cell_at (scored df) ''price_sgd'' i = cell_at df ''price_sgd'' i"
    "cell_at (scored df) ''depreciation_per_year'' i = cell_at df ''depreciation_per_year'' i"
    "cell_at (scored df) ''mileage_km'' i = cell_at df ''mileage_km'' i"
    by (simp_all add: cell_at_def map_of_scored)
  have norms:
    "cell_at (scored df) ''price_norm'' i =
       Some (to_cell (norm_series False (raw df ''price_sgd'') ! i))"
    "cell_at (scored df) ''depr_norm'' i =
       Some (to_cell (norm_series False (raw df ''depreciation_per_year'') ! i))"
    "cell_at (scored df) ''mileage_norm'' i =
       Some (to_cell (norm_series False (raw df ''mileage_km'') ! i))"
    "cell_at (scored df) ''age_norm'' i = Some (to_cell (norm_series False (car_age df) ! i))"
    "cell_at (scored df) ''car_age'' i = Some (to_cell (car_age df ! i))"
    using wf assms(2)
    by (simp_all add: cell_at_def map_of_scored length_norm_series length_raw length_car_age)
  from assms(3) show ?thesis
  proof (cases rule: normalised_columns_cases)
    case 1
    have "cell_at (scored df) attr i = Some (to_cell (raw df ''price_sgd'' ! i))"
      unfolding 1 pass(1) by (rule raw_cell [OF wf p assms(2)])
    moreover have "cell_at (scored df) nm i =
        Some (to_cell (norm_series False (raw df ''price_sgd'') ! i))"
      unfolding 1 by (rule norms(1))
    moreover have "length (raw df ''price_sgd'') = index_len df"
      using wf by (rule length_raw)
    ultimately show ?thesis by blast
  next
    case 2
    have "cell_at (scored df) attr i = Some (to_cell (raw df ''depreciation_per_year'' ! i))"
      unfolding 2 pass(2) by (rule raw_cell [OF wf d assms(2)])
    moreover have "cell_at (scored df) nm i =
        Some (to_cell (norm_series False (raw df ''depreciation_per_year'') ! i))"
      unfolding 2 by (rule norms(2))
    moreover have "length (raw df ''depreciation_per_year'') = index_len df"
      using wf by (rule length_raw)
    ultimately show ?thesis by blast
  next
    case 3
    have "cell_at (scored df) attr i = Some (to_cell (raw df ''mileage_km'' ! i))"
      unfolding 3 pass(3) by (rule raw_cell [OF wf m assms(2)])
    moreover have "cell_at (scored df) nm i =
        Some (to_cell (norm_series False (raw df ''mileage_km'') ! i))"
      unfolding 3 by (rule norms(3))
    moreover have "length (raw df ''mileage_km'') = index_len df"
      using wf by (rule length_raw)
    ultimately show ?thesis by blast
  next
    case 4
    have "cell_at (scored df) attr i = Some (to_cell (car_age df ! i))"
      unfolding 4 by (rule norms(5))
    moreover have "cell_at (scored df) nm i = Some (to_cell (norm_series False (car_age df) ! i))"
      unfolding 4 by (rule norms(4))
    moreover have "length (car_age df) = index_len df"
      using wf by (rule length_car_age)
    ultimately show ?thesis by blast
  qed
qed




lemma scorable_partial_batch: "scorable partial_batch"
  by code_simp

section \<open>The example block, field by field\<close>

lemma clean_example_text: "clean (Some example_text) = example_text"
  by code_simp

lemma find_price_example: "find_price example_text = Some 58000"
  by code_simp

lemma find_mileage_example: "find_mileage example_text = Some 45000"
  by code_simp

lemma find_depreciation_example: "find_depreciation example_text = Some 9200"
  by code_simp

lemma find_engine_example: "find_engine example_text = Some 1800"
  by code_simp

lemma find_year_example: "find_year example_text = Some 2019"
  by code_simp

lemma find_coe_example: "find_coe example_text = Some (7 / 2)"
  by code_simp

lemma headers_differ: "headers 0 \<noteq> headers 1"
  by (simp add: headers_def random_choice_def UAS_def)

section \<open>Scoring an empty batch\<close>

text \<open>
  C2, as stated: scoring an empty batch returns an empty batch and adds no derived
  column. The source stores two empty columns before it returns: scoring
  \<open>pd.DataFrame()\<close>, which has no column, gives a frame with the columns
  \<open>value_score\<close> and \<open>value_rank\<close>.
\<close>

theorem empty_batch_gains_columns:
  "compute_value_scores indexer_stable DataFrame_empty =
     Inr \<lparr>index_len = 0, columns = [(''value_score'', []), (''value_rank'', [])]\<rparr>"
  by (simp add: compute_value_scores_def DataFrame_empty_def empty_def setitem_list_def
      setitem_def)

text \<open>
  C2, amended: scoring a batch of zero records raises nothing and returns a batch of
  zero records in which \<open>value_score\<close> and \<open>value_rank\<close> are empty columns and every
  other column is as it was; \<open>car_age\<close> and the four normalised columns are not added.
\<close>

theorem empty_batch_scored:
  assumes "index_len df = 0"
  shows "\<exists>out. compute_value_scores ix df = Inr out \<and> index_len out = 0 \<and>
           map_of (columns out) =
             (map_of (columns df))(''value_score'' \<mapsto> [], ''value_rank'' \<mapsto> [])"
  using assms
  by (simp add: compute_value_scores_def empty_def setitem_list_def setitem_def update_conv')

theorem empty_batch_scored_witness:
  "index_len \<lparr>index_len = 0, columns = [(''title'', [])]\<rparr> = 0 \<and>
   (\<exists>out. compute_value_scores indexer_stable \<lparr>index_len = 0, columns = [(''title'', [])]\<rparr>
             = Inr out \<and> index_len out = 0 \<and>
           map_of (columns out) =
             [''title'' \<mapsto> [], ''value_score'' \<mapsto> [], ''value_rank'' \<mapsto> []])"
  using empty_batch_scored [of "\<lparr>index_len = 0, columns = [(''title'', [])]\<rparr>" indexer_stable]
  by simp

section \<open>Missing data\<close>

text \<open>
  C5: in a non-empty batch, a record none of whose four scored attributes is present gets
  the value score 50.0 and a rank between 1 and the number of records. The record is row
  \<open>i\<close> of the input; it is row \<open>j\<close> of the output, where it keeps its own cells.
\<close>

theorem missing_data_neutrality:
  assumes "scorable df" and "sorts_descending ix" and "i < index_len df"
    and "absent df ''price_sgd'' i" and "absent df ''depreciation_per_year'' i"
    and "absent df ''mileage_km'' i" and "absent df ''year'' i"
  shows "\<exists>out j. compute_value_scores ix df = Inr out \<and> index_len out = index_len df \<and>
           j < index_len out \<and>
           (\<forall>name. name \<notin> set derived_columns \<longrightarrow> cell_at out name j = cell_at df name i) \<and>
           cell_at out ''value_score'' j = Some (Num 50) \<and>
           cell_at out ''value_rank'' j = Some (Num (of_nat (j + 1))) \<and>
           1 \<le> j + 1 \<and> j + 1 \<le> index_len df"
proof -
  let ?out = "ranked ix (scored df)"
  let ?perm = "ix (scores_of df)"
  have wf: "wf_frame df" using assms(1) by (simp add: scorable_def)
  have "i \<in> set ?perm"
    using indexer_perm(2) [OF assms(2), of "scores_of df"] assms(3)
    by (simp add: length_scores_of)
  then obtain j where j: "j < length ?perm" and pj: "?perm ! j = i"
    by (auto simp: in_set_conv_nth)
  have jn: "j < index_len df"
    using j indexer_perm(1) [OF assms(2), of "scores_of df"] by (simp add: length_scores_of)
  have p: "norm_series False (raw df ''price_sgd'') ! i = None"
    and d: "norm_series False (raw df ''depreciation_per_year'') ! i = None"
    and m: "norm_series False (raw df ''mileage_km'') ! i = None"
    using wf assms(3-6) by (simp_all add: norm_series_None length_raw absent_raw)
  have "car_age df ! i = None"
    using wf assms(3,7) by (simp add: car_age_def length_raw absent_raw)
  then have a: "norm_series False (car_age df) ! i = None"
    using wf assms(3) by (simp add: norm_series_None length_car_age)
  have s: "scores_of df ! i = 50"
    using assms(3) by (simp add: scores_of_nth p d m a np_round1_50)
  have 1: "compute_value_scores ix df = Inr ?out"
    using assms(1) by (rule compute_value_scores_scorable)
  have 2: "index_len ?out = index_len df"
    using assms(2) by (rule index_len_ranked_scored)
  have 3: "\<forall>name. name \<notin> set derived_columns \<longrightarrow> cell_at ?out name j = cell_at df name i"
  proof (intro allI impI)
    fix name :: string
    assume n: "name \<notin> set derived_columns"
    then have "name \<noteq> ''value_rank''" by (auto simp: derived_columns_def)
    then have "cell_at ?out name j = cell_at (scored df) name (?perm ! j)"
      using assms(1,2) jn by (intro ranked_cell)
    with n pj show "cell_at ?out name j = cell_at df name i"
      by (simp add: scored_cell_passthrough)
  qed
  have "cell_at ?out ''value_score'' j = cell_at (scored df) ''value_score'' (?perm ! j)"
    using assms(1,2) jn by (intro ranked_cell) simp_all
  then have 4: "cell_at ?out ''value_score'' j = Some (Num 50)"
    using pj assms(3) s by (simp add: scored_cell_value_score)
  have 5: "cell_at ?out ''value_rank'' j = Some (Num (of_nat (j + 1)))"
    using assms(2) jn by (rule ranked_rank_cell)
  have 6: "j < index_len ?out"
    using 2 jn by simp
  have 7: "1 \<le> j + 1 \<and> j + 1 \<le> index_len df"
    using jn by simp
  show ?thesis
  proof (intro exI conjI)
    show "compute_value_scores ix df = Inr ?out" by (rule 1)
    show "index_len ?out = index_len df" by (rule 2)
    show "j < index_len ?out" by (rule 6)
    show "\<forall>name. name \<notin> set derived_columns \<longrightarrow> cell_at ?out name j = cell_at df name i"
      by (rule 3)
    show "cell_at ?out ''value_score'' j = Some (Num 50)" by (rule 4)
    show "cell_at ?out ''value_rank'' j = Some (Num (of_nat (j + 1)))" by (rule 5)
    show "1 \<le> j + 1" by simp
    show "j + 1 \<le> index_len df" using jn by simp
  qed
qed


theorem missing_data_neutrality_witness:
  "scorable example_batch \<and> sorts_descending indexer_stable \<and> 2 < index_len example_batch \<and>
   absent example_batch ''price_sgd'' 2 \<and> absent example_batch ''depreciation_per_year'' 2 \<and>
   absent example_batch ''mileage_km'' 2 \<and> absent example_batch ''year'' 2 \<and>
   (\<exists>out j. compute_value_scores indexer_stable example_batch = Inr out \<and>
      index_len out = index_len example_batch \<and> j < index_len out \<and>
      (\<forall>name. name \<notin> set derived_columns \<longrightarrow>
         cell_at out name j = cell_at example_batch name 2) \<and>
      cell_at out ''value_score'' j = Some (Num 50) \<and>
      cell_at out ''value_rank'' j = Some (Num (of_nat (j + 1))) \<and>
      1 \<le> j + 1 \<and> j + 1 \<le> index_len example_batch)"
proof -
  have n: "2 < index_len example_batch"
    by (simp add: example_batch_def)
  have a: "absent example_batch ''price_sgd'' 2"
    "absent example_batch ''depreciation_per_year'' 2"
    "absent example_batch ''mileage_km'' 2" "absent example_batch ''year'' 2"
    by code_simp+
  show ?thesis
    using scorable_example_batch sorts_descending_stable n a
      missing_data_neutrality [OF scorable_example_batch sorts_descending_stable n a]
    by (intro conjI)
qed

section \<open>Score range and ranks\<close>

text \<open>
  C6: for every non-empty batch every value score lies in [0, 100], and the ranks are
  1, 2, ..., N down the output, whose value scores are in descending order, so rank 1 goes
  to the highest score.
\<close>

theorem scores_and_ranks:
  assumes "scorable df" and "sorts_descending ix"
  shows "\<exists>out vs. compute_value_scores ix df = Inr out \<and> index_len out = index_len df \<and>
           map_of (columns out) ''value_score'' = Some (map Num vs) \<and>
           length vs = index_len df \<and> (\<forall>v\<in>set vs. 0 \<le> v \<and> v \<le> 100) \<and>
           sorted_wrt (\<lambda>a b. b \<le> a) vs \<and>
           map_of (columns out) ''value_rank'' =
             Some (map (\<lambda>r. Num (of_nat r)) [1..<Suc (index_len df)])"
proof -
  let ?out = "ranked ix (scored df)"
  let ?perm = "ix (scores_of df)"
  let ?vs = "map ((!) (scores_of df)) ?perm"
  have wf: "wf_frame df" using assms(1) by (simp add: scorable_def)
  have len: "length ?perm = index_len df"
    using indexer_perm(1) [OF assms(2), of "scores_of df"] by (simp add: length_scores_of)
  have set: "set ?perm = {0..<index_len df}"
    using indexer_perm(2) [OF assms(2), of "scores_of df"] by (simp add: length_scores_of)
  have 1: "compute_value_scores ix df = Inr ?out"
    using assms(1) by (rule compute_value_scores_scorable)
  have 2: "index_len ?out = index_len df"
    using assms(2) by (rule index_len_ranked_scored)
  have 3: "map_of (columns ?out) ''value_score'' = Some (map Num ?vs)"
    using set by (simp add: map_of_ranked num_column_scored map_of_scored length_scores_of)
  have 4: "length ?vs = index_len df"
    using len by simp
  have 5: "\<forall>v\<in>set ?vs. 0 \<le> v \<and> v \<le> 100"
    using set wf by (auto simp: scores_of_range)
  have 6: "sorted_wrt (\<lambda>a b. b \<le> a) ?vs"
    using assms(2) by (simp add: sorts_descending_def)
  have "map (\<lambda>i. Num (of_nat (i + 1))) [0..<index_len df] =
        map (\<lambda>r. Num (of_nat r)) (map Suc [0..<index_len df])"
    by simp
  also have "map Suc [0..<index_len df] = [1..<Suc (index_len df)]"
    by (simp add: map_Suc_upt)
  finally have 7: "map_of (columns ?out) ''value_rank'' =
             Some (map (\<lambda>r. Num (of_nat r)) [1..<Suc (index_len df)])"
    using len by (simp add: map_of_ranked num_column_scored)
  show ?thesis
  proof (intro exI conjI)
    show "compute_value_scores ix df = Inr ?out" by (rule 1)
    show "index_len ?out = index_len df" by (rule 2)
    show "map_of (columns ?out) ''value_score'' = Some (map Num ?vs)" by (rule 3)
    show "length ?vs = index_len df" by (rule 4)
    show "\<forall>v\<in>set ?vs. 0 \<le> v \<and> v \<le> 100" by (rule 5)
    show "sorted_wrt (\<lambda>a b. b \<le> a) ?vs" by (rule 6)
    show "map_of (columns ?out) ''value_rank'' =
            Some (map (\<lambda>r. Num (of_nat r)) [1..<Suc (index_len df)])" by (rule 7)
  qed
qed

theorem scores_and_ranks_witness:
  "scorable example_batch \<and> sorts_descending indexer_stable \<and>
   (\<exists>out vs. compute_value_scores indexer_stable example_batch = Inr out \<and>
      index_len out = index_len example_batch \<and>
      map_of (columns out) ''value_score'' = Some (map Num vs) \<and>
      length vs = index_len example_batch \<and> (\<forall>v\<in>set vs. 0 \<le> v \<and> v \<le> 100) \<and>
      sorted_wrt (\<lambda>a b. b \<le> a) vs \<and>
      map_of (columns out) ''value_rank'' =
        Some (map (\<lambda>r. Num (of_nat r)) [1..<Suc (index_len example_batch)]))"
  using scorable_example_batch sorts_descending_stable
    scores_and_ranks [OF scorable_example_batch sorts_descending_stable]
  by (intro conjI)

section \<open>Normalised scores\<close>

text \<open>
  C3, as stated: a normalised score is absent only when every record of the batch lacks
  the raw attribute. In \<open>partial_batch\<close> the first record has a price and the second has
  none; the second record's \<open>price_norm\<close> is missing all the same, because \<open>norm_col\<close>
  keeps \<open>NaN\<close> where the raw cell is \<open>NaN\<close> on both of its computing branches.
\<close>

theorem absent_attribute_absent_norm:
  "(case compute_value_scores indexer_stable partial_batch of
      Inl e \<Rightarrow> False
    | Inr out \<Rightarrow>
        cell_at out ''price_sgd'' 0 = Some (Num 50000) \<and>
        cell_at out ''price_sgd'' 1 = Some NaN \<and>
        cell_at out ''price_norm'' 1 = Some NaN)"
  by code_simp


text \<open>
  C3, amended: for every non-empty batch, each of the four normalised scores of a record
  is either a number in [0, 1], when the record's own raw attribute (price, depreciation,
  mileage, car age) is present, or absent, when the record's own raw attribute is absent.
\<close>

theorem normalised_scores:
  assumes "scorable df" and "sorts_descending ix"
  shows "\<exists>out. compute_value_scores ix df = Inr out \<and> index_len out = index_len df \<and>
           (\<forall>j<index_len out. \<forall>(attr, nm)\<in>set normalised_columns.
              (cell_at out attr j = Some NaN \<and> cell_at out nm j = Some NaN) \<or>
              (\<exists>a v. cell_at out attr j = Some (Num a) \<and> cell_at out nm j = Some (Num v) \<and>
                     0 \<le> v \<and> v \<le> 1))"
proof -
  let ?out = "ranked ix (scored df)"
  let ?perm = "ix (scores_of df)"
  have 1: "compute_value_scores ix df = Inr ?out"
    using assms(1) by (rule compute_value_scores_scorable)
  have 2: "index_len ?out = index_len df"
    using assms(2) by (rule index_len_ranked_scored)
  have 3: "(cell_at ?out attr j = Some NaN \<and> cell_at ?out nm j = Some NaN) \<or>
           (\<exists>a v. cell_at ?out attr j = Some (Num a) \<and> cell_at ?out nm j = Some (Num v) \<and>
                  0 \<le> v \<and> v \<le> 1)"
    if j: "j < index_len df" and pair: "(attr, nm) \<in> set normalised_columns"
    for j attr nm
  proof -
    note ne = normalised_columns_not_rank [OF pair]
    have "?perm ! j \<in> set ?perm"
      using j indexer_perm(1) [OF assms(2), of "scores_of df"] by (simp add: length_scores_of)
    then have lt: "?perm ! j < index_len df"
      using indexer_perm(2) [OF assms(2), of "scores_of df"] by (simp add: length_scores_of)
    from scored_pair [OF assms(1) lt pair] obtain x where x: "length x = index_len df"
      and ca: "cell_at (scored df) attr (?perm ! j) = Some (to_cell (x ! (?perm ! j)))"
      and cn: "cell_at (scored df) nm (?perm ! j) =
                 Some (to_cell (norm_series False x ! (?perm ! j)))"
      by blast
    have oa: "cell_at ?out attr j = Some (to_cell (x ! (?perm ! j)))"
      using ranked_cell [OF assms(1,2) j ne(1)] ca by (simp only:)
    have on: "cell_at ?out nm j = Some (to_cell (norm_series False x ! (?perm ! j)))"
      using ranked_cell [OF assms(1,2) j ne(2)] cn by (simp only:)
    from lt x have "?perm ! j < length x"
      by simp
    from norm_pair [OF this] show ?thesis
      unfolding oa on option.inject .
  qed
  show ?thesis
  proof (intro exI conjI)
    show "compute_value_scores ix df = Inr ?out" by (rule 1)
    show "index_len ?out = index_len df" by (rule 2)
    show "\<forall>j<index_len ?out. \<forall>(attr, nm)\<in>set normalised_columns.
              (cell_at ?out attr j = Some NaN \<and> cell_at ?out nm j = Some NaN) \<or>
              (\<exists>a v. cell_at ?out attr j = Some (Num a) \<and> cell_at ?out nm j = Some (Num v) \<and>
                     0 \<le> v \<and> v \<le> 1)"
    proof (intro allI impI ballI)
      fix j pair
      assume j: "j < index_len ?out" and pair: "pair \<in> set normalised_columns"
      obtain attr nm where eq: "pair = (attr, nm)"
        by (cases pair)
      from j have "j < index_len df"
        by (simp only: 2)
      from 3 [OF this pair [unfolded eq]]
      show "case pair of (attr, nm) \<Rightarrow>
              (cell_at ?out attr j = Some NaN \<and> cell_at ?out nm j = Some NaN) \<or>
              (\<exists>a v. cell_at ?out attr j = Some (Num a) \<and> cell_at ?out nm j = Some (Num v) \<and>
                     0 \<le> v \<and> v \<le> 1)"
        unfolding eq prod.case .
    qed
  qed
qed

theorem normalised_scores_witness:
  "scorable partial_batch \<and> sorts_descending indexer_stable \<and>
   (\<exists>out. compute_value_scores indexer_stable partial_batch = Inr out \<and>
      index_len out = index_len partial_batch \<and>
      (\<forall>j<index_len out. \<forall>(attr, nm)\<in>set normalised_columns.
         (cell_at out attr j = Some NaN \<and> cell_at out nm j = Some NaN) \<or>
         (\<exists>a v. cell_at out attr j = Some (Num a) \<and> cell_at out nm j = Some (Num v) \<and>
                0 \<le> v \<and> v \<le> 1)))"
  using scorable_partial_batch sorts_descending_stable
    normalised_scores [OF scorable_partial_batch sorts_descending_stable]
  by (intro conjI)




section \<open>Extraction from a listing block\<close>

text \<open>
  C7: the loop body, run on a card whose text is the block text of the specification's
  example and that has no detail link, finds price 58000, mileage 45000, engine 1800,
  depreciation 9200, year 2019 and 3.5 years of COE left; the cleaned text is the block
  text itself.
\<close>

theorem extraction_example:
  "extract_listing \<lparr>card_text = Some example_text, link_el = None\<rparr> =
     \<lparr>title = None, listing_url = None, price_sgd = Some 58000, mileage_km = Some 45000,
      depreciation_per_year = Some 9200, year = Some 2019, coe_left_years = Some (7 / 2),
      engine_cc = Some 1800, raw_text = example_text\<rparr>"
proof -
  have "or_else (Some example_text) [] = example_text"
    by (simp add: or_else_def example_text_def)
  then show ?thesis
    by (simp add: extract_listing_def clean_example_text find_price_example
        find_mileage_example find_depreciation_example find_engine_example find_year_example
        find_coe_example)
qed

section \<open>Fetch failures\<close>

text \<open>
  C8: whenever the request raises, or is answered with a status other than 200, or is
  answered with a page in which the parser finds no listing card, the fetcher returns
  the empty frame \<open>pd.DataFrame()\<close>, with no row and no column. The fetcher is a total
  function of its world and arguments: no failure of the request reaches the caller.
\<close>

theorem fetch_failure_empty:
  "(requests_get w (build_request (draw w) budget_min budget_max make') = Raised \<longrightarrow>
      fetch_used_cars_live w budget_min budget_max make' max_results = DataFrame_empty) \<and>
   (\<forall>status_code html.
      requests_get w (build_request (draw w) budget_min budget_max make') =
        Response status_code html \<and> status_code \<noteq> 200 \<longrightarrow>
      fetch_used_cars_live w budget_min budget_max make' max_results = DataFrame_empty) \<and>
   (\<forall>html.
      requests_get w (build_request (draw w) budget_min budget_max make') = Response 200 html \<and>
      select_cards w html = [] \<longrightarrow>
      fetch_used_cars_live w budget_min budget_max make' max_results = DataFrame_empty)"
  by (simp add: fetch_used_cars_live_def)

theorem fetch_failure_empty_witness:
  "requests_get world_down (build_request (draw world_down) None None None) = Raised \<and>
   fetch_used_cars_live world_down None None None 40 = DataFrame_empty \<and>
   requests_get world_blocked (build_request (draw world_blocked) None None None) =
     Response 403 ''Forbidden'' \<and>
   fetch_used_cars_live world_blocked None None None 40 = DataFrame_empty \<and>
   requests_get world_restyled (build_request (draw world_restyled) None None None) =
     Response 200 ''<html></html>'' \<and>
   select_cards world_restyled ''<html></html>'' = [] \<and>
   fetch_used_cars_live world_restyled None None None 40 = DataFrame_empty"
proof -
  have d: "requests_get world_down (build_request (draw world_down) None None None) = Raised"
    by (simp add: world_down_def)
  have b: "requests_get world_blocked (build_request (draw world_blocked) None None None) =
      Response 403 ''Forbidden''"
    by (simp add: world_blocked_def)
  have r: "requests_get world_restyled (build_request (draw world_restyled) None None None) =
      Response 200 ''<html></html>''"
    and c: "select_cards world_restyled ''<html></html>'' = []"
    by (simp_all add: world_restyled_def)
  show ?thesis
    using d b r c
      fetch_failure_empty [of world_down None None None 40]
      fetch_failure_empty [of world_blocked None None None 40]
      fetch_failure_empty [of world_restyled None None None 40]
    by simp
qed

section \<open>The random header and the results\<close>

text \<open>
  C9: extraction and scoring are functions of the page and of the batch. Two runs of
  the fetcher whose generators draw differently, on worlds that serve the same answer
  and parse alike, return the same batch, and scoring the two batches gives the same
  result; the two requests have the same address, parameters, timeout and header names,
  so the draw shows only in the value of the \<open>User-Agent\<close> header.
\<close>

theorem header_choice_only_in_request:
  assumes "select_cards w1 = select_cards w2"
    and "requests_get w1 (build_request (draw w1) budget_min budget_max make') =
         requests_get w2 (build_request (draw w2) budget_min budget_max make')"
  shows "fetch_used_cars_live w1 budget_min budget_max make' max_results =
           fetch_used_cars_live w2 budget_min budget_max make' max_results \<and>
         compute_value_scores ix (fetch_used_cars_live w1 budget_min budget_max make' max_results) =
           compute_value_scores ix (fetch_used_cars_live w2 budget_min budget_max make' max_results) \<and>
         url (build_request (draw w1) budget_min budget_max make') =
           url (build_request (draw w2) budget_min budget_max make') \<and>
         params (build_request (draw w1) budget_min budget_max make') =
           params (build_request (draw w2) budget_min budget_max make') \<and>
         timeout (build_request (draw w1) budget_min budget_max make') =
           timeout (build_request (draw w2) budget_min budget_max make') \<and>
         map fst (req_headers (build_request (draw w1) budget_min budget_max make')) =
           map fst (req_headers (build_request (draw w2) budget_min budget_max make'))"
proof -
  have "fetch_used_cars_live w1 budget_min budget_max make' max_results =
           fetch_used_cars_live w2 budget_min budget_max make' max_results"
    unfolding fetch_used_cars_live_def assms by (rule refl)
  then show ?thesis
    by (simp add: build_request_def headers_def)
qed

theorem header_choice_only_in_request_witness:
  "select_cards world_up = select_cards (world_up\<lparr>draw := 1\<rparr>) \<and>
   requests_get world_up (build_request (draw world_up) None None None) =
     requests_get (world_up\<lparr>draw := 1\<rparr>)
       (build_request (draw (world_up\<lparr>draw := 1\<rparr>)) None None None) \<and>
   req_headers (build_request (draw world_up) None None None) \<noteq>
     req_headers (build_request (draw (world_up\<lparr>draw := 1\<rparr>)) None None None) \<and>
   fetch_used_cars_live world_up None None None 40 =
     fetch_used_cars_live (world_up\<lparr>draw := 1\<rparr>) None None None 40 \<and>
   compute_value_scores indexer_stable (fetch_used_cars_live world_up None None None 40) =
     compute_value_scores indexer_stable
       (fetch_used_cars_live (world_up\<lparr>draw := 1\<rparr>) None None None 40)"
proof -
  have s: "select_cards world_up = select_cards (world_up\<lparr>draw := 1\<rparr>)"
    by simp
  have g: "requests_get world_up (build_request (draw world_up) None None None) =
     requests_get (world_up\<lparr>draw := 1\<rparr>)
       (build_request (draw (world_up\<lparr>draw := 1\<rparr>)) None None None)"
    by (simp add: world_up_def)
  have h: "req_headers (build_request (draw world_up) None None None) \<noteq>
     req_headers (build_request (draw (world_up\<lparr>draw := 1\<rparr>)) None None None)"
    using headers_differ by (simp add: build_request_def world_up_def)
  show ?thesis
    using s g h header_choice_only_in_request [OF s g, of 40 indexer_stable]
    by (intro conjI) simp_all
qed

section \<open>Filters that are zero or empty\<close>

text \<open>
  C10: a minimum price of 0, a maximum price of 0 and an empty brand are treated as
  absent. The request built with such a filter is the request built without it, the
  parameters \<open>PR1\<close>, \<open>PR2\<close> and \<open>Make\<close> are left out, and the fetcher returns what it
  returns without the filter.
\<close>

theorem zero_filters_omitted:
  "build_request d (Some 0) budget_max make' = build_request d None budget_max make' \<and>
   build_request d budget_min (Some 0) make' = build_request d budget_min None make' \<and>
   build_request d budget_min budget_max (Some []) = build_request d budget_min budget_max None \<and>
   params (build_request d (Some 0) (Some 0) (Some [])) =
     [(''avl'', PStr ''a''), (''limit'', PInt 60), (''page'', PInt 1)] \<and>
   fetch_used_cars_live w (Some 0) budget_max make' max_results =
     fetch_used_cars_live w None budget_max make' max_results \<and>
   fetch_used_cars_live w budget_min (Some 0) make' max_results =
     fetch_used_cars_live w budget_min None make' max_results \<and>
   fetch_used_cars_live w budget_min budget_max (Some []) max_results =
     fetch_used_cars_live w budget_min budget_max None max_results"
  by (simp add: fetch_used_cars_live_def build_request_def build_params_def)

end
